theory Spec2Isabelle
  imports Main
begin

text \<open>
  A model of the interceptors of the gRPC template service and of its health checker:
  the state names and the rollups of the health report, the request context, the extra
  fields of the entry logger, the \<^verbatim>\<open>Timeout\<close> and \<^verbatim>\<open>Recovery\<close> interceptors, and
  \<^verbatim>\<open>RunChecks\<close>. Goroutines, channels and timers are modelled by instants: a computation
  is described by when and how it ends, and a \<^verbatim>\<open>select\<close> takes the case that becomes
  ready first.
\<close>

section \<open>Health states (service-healthcheck/state.go)\<close>

text \<open>
  \<^verbatim>\<open>type State int\<close>: a state is a machine integer, so values outside the four named
  constants exist. The model keeps the integer.
\<close>

type_synonym State = int

definition StateHealthy :: State where "StateHealthy = 0"
definition StateDegraded :: State where "StateDegraded = 1"
definition StateUnhealthy :: State where "StateUnhealthy = 2"
definition StateUnknown :: State where "StateUnknown = 3"

text \<open>The two lookup tables. A Go map read of a missing key gives the zero value.\<close>

definition stateToName :: "int \<rightharpoonup> string" where
  "stateToName = [0 \<mapsto> ''healthy'', 1 \<mapsto> ''degraded'', 2 \<mapsto> ''unhealthy'', 3 \<mapsto> ''unknown'']"

definition nameToState :: "string \<rightharpoonup> State" where
  "nameToState = [''healthy'' \<mapsto> StateHealthy, ''degraded'' \<mapsto> StateDegraded,
                  ''unhealthy'' \<mapsto> StateUnhealthy, ''unknown'' \<mapsto> StateUnknown]"

text \<open>\<^verbatim>\<open>func (s State) String() string { return stateToName[int(s)] }\<close>\<close>

definition String :: "State \<Rightarrow> string" where
  "String s = (case stateToName s of Some n \<Rightarrow> n | None \<Rightarrow> '''')"

text \<open>
  \<^verbatim>\<open>MarshalJSON\<close> and \<^verbatim>\<open>UnmarshalJSON\<close> go through \<^verbatim>\<open>encoding/json\<close> of the Go standard
  library, which is not part of the repository. Its two entry points, restricted to the
  type \<^verbatim>\<open>string\<close>, are parameters: \<open>marshal\<close> encodes a string (this never fails for a
  string), \<open>unmarshal\<close> decodes bytes into a string or fails.
\<close>

type_synonym bytes = "char list"

definition MarshalJSON :: "(string \<Rightarrow> bytes) \<Rightarrow> State \<Rightarrow> bytes" where
  "MarshalJSON marshal s = marshal (String s)"

text \<open>
  \<^verbatim>\<open>func (s *State) UnmarshalJSON(b []byte) error\<close>: the result is the returned error and
  the value of \<^verbatim>\<open>*s\<close> afterwards.
\<close>

definition UnmarshalJSON :: "(bytes \<Rightarrow> string + string) \<Rightarrow> State \<Rightarrow> bytes \<Rightarrow> string option \<times> State" where
  "UnmarshalJSON unmarshal s b =
     (case unmarshal b of
        Inl err \<Rightarrow> (Some err, s)
      | Inr str \<Rightarrow>
          (case nameToState str of
             Some v \<Rightarrow> (None, v)
           | None \<Rightarrow> (None, StateUnknown)))"

section \<open>Aggregated results and their rollups (service-healthcheck/daemon.go)\<close>

type_synonym time = nat  \<comment> \<open>an instant or a \<^verbatim>\<open>time.Duration\<close>, in nanoseconds\<close>

record CheckingResult =
  State :: State
  Output :: string
  Name :: string
  Duration :: time

record Runtime =
  Host :: string
  GoVersion :: string
  Service :: string
  Environment :: string
  Version :: string

record CheckingResults =
  Checks :: "CheckingResult list"
  TotalDuration :: time  \<comment> \<open>the field \<^verbatim>\<open>Duration\<close> of \<^verbatim>\<open>CheckingResults\<close>\<close>
  Runtime :: Runtime

text \<open>The \<^verbatim>\<open>range\<close> loop of \<^verbatim>\<open>IsHealthy\<close>, leaving at the first check that is neither healthy nor degraded.\<close>

fun IsHealthy_loop :: "CheckingResult list \<Rightarrow> bool" where
  "IsHealthy_loop [] = True"
| "IsHealthy_loop (check # checks) =
     (if State check \<noteq> StateHealthy \<and> State check \<noteq> StateDegraded then False
      else IsHealthy_loop checks)"

definition IsHealthy :: "CheckingResults \<Rightarrow> bool" where
  "IsHealthy c = (let checks = Checks c in
     if length checks \<le> 0 then False else IsHealthy_loop checks)"

fun IsDegraded_loop :: "CheckingResult list \<Rightarrow> bool" where
  "IsDegraded_loop [] = False"
| "IsDegraded_loop (check # checks) =
     (if State check = StateDegraded then True else IsDegraded_loop checks)"

definition IsDegraded :: "CheckingResults \<Rightarrow> bool" where
  "IsDegraded c = (let checks = Checks c in
     if length checks \<le> 0 then False else IsDegraded_loop checks)"

text \<open>The loop of \<^verbatim>\<open>GetState\<close> carries the two flags \<^verbatim>\<open>healthy\<close> and \<^verbatim>\<open>degraded\<close>.\<close>

fun GetState_loop :: "CheckingResult list \<Rightarrow> bool \<Rightarrow> bool \<Rightarrow> bool \<times> bool" where
  "GetState_loop [] healthy degraded = (healthy, degraded)"
| "GetState_loop (check # checks) healthy degraded =
     GetState_loop checks
       (healthy \<and> State check = StateHealthy)
       (degraded \<and> (State check = StateHealthy \<or> State check = StateDegraded))"

definition GetState :: "CheckingResults \<Rightarrow> State" where
  "GetState c = (let checks = Checks c in
     if length checks \<le> 0 then StateUnhealthy
     else (case GetState_loop checks True True of
             (healthy, degraded) \<Rightarrow>
               if healthy then StateHealthy
               else if degraded then StateDegraded
               else StateUnhealthy))"

section \<open>Contexts, metadata and the request context (shared-go-libs/grpcd/entry.go)\<close>

text \<open>
  A \<^verbatim>\<open>context.Context\<close> is modelled by what the interceptors read from it. Instants
  are counted in nanoseconds from the moment the call enters the interceptor.
  \<open>ctx_end\<close> is the instant at which \<^verbatim>\<open>Done()\<close> is closed together with the value
  \<^verbatim>\<open>Err()\<close> has from then on (\<open>None\<close>: the context never ends). The remaining fields
  are the values stored under the private keys of the package, the incoming metadata and
  the transport peer.
\<close>

datatype ctx_error = context_Canceled | context_DeadlineExceeded

datatype codes =
  OK | Canceled | Unknown | InvalidArgument | DeadlineExceeded | NotFound | AlreadyExists
  | PermissionDenied | ResourceExhausted | FailedPrecondition | Aborted | OutOfRange
  | Unimplemented | Internal | Unavailable | DataLoss | Unauthenticated

text \<open>
  Go errors that occur in the interceptors: a gRPC status (\<^verbatim>\<open>status.Error(code, msg)\<close>),
  a context error, or an error made from a text (\<^verbatim>\<open>errors.New\<close>, \<^verbatim>\<open>fmt.Errorf\<close>).
\<close>

datatype error = StatusError codes string | ContextError ctx_error | ErrorString string

text \<open>
  Values of log fields (\<^verbatim>\<open>interface{}\<close> in \<^verbatim>\<open>logrus.Fields\<close>). The code stores the two
  durations of the timeout records as seconds in a \<^verbatim>\<open>float64\<close>; the model keeps the
  nanoseconds.
\<close>

datatype field = FString string | FError error | FDuration int

type_synonym 'v Fields = "string \<rightharpoonup> 'v"

type_synonym addr = nat

type_synonym MD = "string \<rightharpoonup> string list"

record Context =
  ctx_end :: "(time \<times> ctx_error) option"
  ctx_logger :: "field Fields option"  \<comment> \<open>the entry stored under \<^verbatim>\<open>ctxLoggerKey{}\<close>, by its data\<close>
  ctx_extraFields :: "addr option"  \<comment> \<open>the map stored under \<^verbatim>\<open>ctxEntryLogsExtraFieldsKey{}\<close>, by reference\<close>
  ctx_incoming :: "MD option"  \<comment> \<open>\<^verbatim>\<open>metadata.FromIncomingContext\<close>\<close>
  ctx_peer :: "string option"  \<comment> \<open>\<^verbatim>\<open>peer.FromContext\<close>, as \<^verbatim>\<open>p.Addr.String()\<close>\<close>

text \<open>\<^verbatim>\<open>ctx.Err()\<close> read at instant \<open>t\<close>.\<close>

definition Err :: "Context \<Rightarrow> time \<Rightarrow> ctx_error option" where
  "Err ctx t = (case ctx_end ctx of
                  None \<Rightarrow> None
                | Some (c, e) \<Rightarrow> if c \<le> t then Some e else None)"

text \<open>
  \<^verbatim>\<open>context.WithTimeout(ctx, d)\<close>, created at instant 0: the child ends when the parent
  ends or when the timer fires after \<open>d\<close>, whichever is first (the parent, when both
  fall on the same instant). \<open>WithTimeout_end\<close> is the end of the child, which always
  exists.
\<close>

definition WithTimeout_end :: "Context \<Rightarrow> time \<Rightarrow> time \<times> ctx_error" where
  "WithTimeout_end ctx d = (case ctx_end ctx of
                              None \<Rightarrow> (d, context_DeadlineExceeded)
                            | Some (c, e) \<Rightarrow> if c \<le> d then (c, e) else (d, context_DeadlineExceeded))"

definition WithTimeout :: "Context \<Rightarrow> time \<Rightarrow> Context" where
  "WithTimeout ctx d = ctx\<lparr>ctx_end := Some (WithTimeout_end ctx d)\<rparr>"

text \<open>
  \<^verbatim>\<open>context.WithCancel(ctx)\<close> whose \<^verbatim>\<open>cancel\<close> is deferred to the return of the caller:
  until then the child ends exactly when the parent does.
\<close>

definition WithCancel :: "Context \<Rightarrow> Context" where
  "WithCancel ctx = ctx"

text \<open>
  \<^verbatim>\<open>strings.ToLower\<close> on the ASCII letters, and \<^verbatim>\<open>md.Get(key)\<close> of grpc's metadata,
  which reads the map under the lower-cased key.
\<close>

definition ToLower_char :: "char \<Rightarrow> char" where
  "ToLower_char c = (let n = (of_char c :: nat) in
                       if 65 \<le> n \<and> n \<le> 90 then char_of (n + 32) else c)"

definition ToLower :: "string \<Rightarrow> string" where
  "ToLower s = map ToLower_char s"

definition md_Get :: "MD \<Rightarrow> string \<Rightarrow> string list" where
  "md_Get md k = (case md (ToLower k) of None \<Rightarrow> [] | Some vs \<Rightarrow> vs)"

definition MetaKeyTraceID :: string where "MetaKeyTraceID = ''Trace-ID''"
definition MetaKeyRequestID :: string where "MetaKeyRequestID = ''Request-ID''"
definition MetaKeyUserAgent :: string where "MetaKeyUserAgent = ''User-Agent''"

definition headerValues :: "Context \<Rightarrow> string \<Rightarrow> string list" where
  "headerValues ctx key = (case ctx_incoming ctx of
                             None \<Rightarrow> []
                           | Some md \<Rightarrow> md_Get md key)"

record EntryConfigs =
  AllowTraceIDFromRequest :: bool
  ReturnRequestIDInHeader :: bool

text \<open>The struct \<^verbatim>\<open>requestCtx\<close>; its fields carry the names of their accessor methods.\<close>

record requestCtx =
  RequestID :: string
  TraceID :: string
  RemoteAddr :: string
  UserAgent :: string
  GrpcService :: string
  GrpcMethod :: string
  startAt :: time

text \<open>
  \<^verbatim>\<open>uuid.Parse\<close> (github.com/google/uuid) is outside the repository: \<open>uuid_ok v\<close> says
  that \<^verbatim>\<open>uuid.Parse(v)\<close> returns no error.
\<close>

definition traceIDFromIncomingMetadata ::
  "(string \<Rightarrow> bool) \<Rightarrow> Context \<Rightarrow> string \<Rightarrow> bool \<Rightarrow> string" where
  "traceIDFromIncomingMetadata uuid_ok ctx requestID readCtx =
     (if \<not> readCtx then requestID
      else (case headerValues ctx MetaKeyTraceID of
              [] \<Rightarrow> requestID
            | v0 # _ \<Rightarrow> if \<not> uuid_ok v0 then requestID else v0))"

definition userAgentFromIncomingMetadata :: "Context \<Rightarrow> string" where
  "userAgentFromIncomingMetadata ctx =
     (case headerValues ctx MetaKeyUserAgent of [] \<Rightarrow> [] | v0 # _ \<Rightarrow> v0)"

text \<open>
  \<^verbatim>\<open>net.ParseIP(s)\<close> followed by \<^verbatim>\<open>ip.String()\<close>, and the host part of
  \<^verbatim>\<open>net.SplitHostPort(s)\<close>, are parameters (\<open>None\<close>: a nil address, an error).
\<close>

definition getValidRemoteIP ::
  "(string \<Rightarrow> string option) \<Rightarrow> (string \<Rightarrow> string option) \<Rightarrow> string \<Rightarrow> string" where
  "getValidRemoteIP ParseIP SplitHostPort s =
     (case ParseIP s of
        Some ip \<Rightarrow> ip
      | None \<Rightarrow>
          (case SplitHostPort s of
             None \<Rightarrow> []
           | Some host \<Rightarrow> (case ParseIP host of None \<Rightarrow> [] | Some ip \<Rightarrow> ip)))"

text \<open>\<^verbatim>\<open>strings.Split(s, ",")[0]\<close>: the text before the first comma.\<close>

definition first_forwarded :: "string \<Rightarrow> string" where
  "first_forwarded s = takeWhile (\<lambda>c. c \<noteq> CHR '','') s"

text \<open>
  One of the two header blocks of \<^verbatim>\<open>remoteAddrFromIncomingMetadata\<close>: the address it
  returns, or the empty string when the block falls through.
\<close>

definition forwarded_ip ::
  "(string \<Rightarrow> string option) \<Rightarrow> (string \<Rightarrow> string option) \<Rightarrow> Context \<Rightarrow> string \<Rightarrow> string" where
  "forwarded_ip ParseIP SplitHostPort ctx key =
     (case headerValues ctx key of
        [] \<Rightarrow> []
      | v0 # _ \<Rightarrow>
          if v0 \<noteq> [] then getValidRemoteIP ParseIP SplitHostPort (first_forwarded v0)
          else [])"

definition remoteAddrFromIncomingMetadata ::
  "(string \<Rightarrow> string option) \<Rightarrow> (string \<Rightarrow> string option) \<Rightarrow> Context \<Rightarrow> string" where
  "remoteAddrFromIncomingMetadata ParseIP SplitHostPort ctx =
     (if forwarded_ip ParseIP SplitHostPort ctx ''X-Forwarded-For'' \<noteq> []
      then forwarded_ip ParseIP SplitHostPort ctx ''X-Forwarded-For''
      else if forwarded_ip ParseIP SplitHostPort ctx ''X-Real-Ip'' \<noteq> []
      then forwarded_ip ParseIP SplitHostPort ctx ''X-Real-Ip''
      else (case ctx_peer ctx of
              None \<Rightarrow> []
            | Some a \<Rightarrow> getValidRemoteIP ParseIP SplitHostPort a))"

text \<open>
  \<^verbatim>\<open>BuildRequestContext\<close>. Besides the library functions above it reads two values from
  its environment: \<open>newRequestID\<close>, the identifier \<^verbatim>\<open>newRequestID()\<close> draws, and \<open>now\<close>,
  the clock. The service and method names are filled in later by \<^verbatim>\<open>Entry\<close>.
\<close>

definition BuildRequestContext ::
  "(string \<Rightarrow> bool) \<Rightarrow> (string \<Rightarrow> string option) \<Rightarrow> (string \<Rightarrow> string option) \<Rightarrow>
   string \<Rightarrow> time \<Rightarrow> Context \<Rightarrow> EntryConfigs \<Rightarrow> requestCtx" where
  "BuildRequestContext uuid_ok ParseIP SplitHostPort newRequestID now ctx c =
     (let requestID = newRequestID;
          traceID = traceIDFromIncomingMetadata uuid_ok ctx requestID (AllowTraceIDFromRequest c);
          remoteAddr = remoteAddrFromIncomingMetadata ParseIP SplitHostPort ctx;
          userAgnet = userAgentFromIncomingMetadata ctx
      in \<lparr>RequestID = requestID, TraceID = traceID, RemoteAddr = remoteAddr,
          UserAgent = userAgnet, GrpcService = [], GrpcMethod = [], startAt = now\<rparr>)"

section \<open>The extra fields of the entry logger\<close>

text \<open>
  \<^verbatim>\<open>logrus.Fields\<close> is a Go map, hence a reference: \<^verbatim>\<open>EntryLogs\<close> stores one in the
  context and every later write through the context changes that same map. The store
  \<open>heap\<close> holds the maps; the context holds an address.
\<close>

type_synonym 'v heap = "addr \<Rightarrow> 'v Fields"

definition newContextWithEntryLogsExtraFields :: "Context \<Rightarrow> addr \<Rightarrow> Context" where
  "newContextWithEntryLogsExtraFields ctx flds = ctx\<lparr>ctx_extraFields := Some flds\<rparr>"

definition entry_logger_missing :: error where
  "entry_logger_missing =
     ErrorString ''cannot find entry logger in the context, did you forget to chain EntryLogs interceptor?''"

text \<open>
  \<^verbatim>\<open>AppendFieldsIntoEntryLogger\<close>: \<open>flds\<close> is the argument map \<^verbatim>\<open>fields\<close> in the order in which
  \<^verbatim>\<open>range\<close> happens to visit it. The result is the returned error and the store.
\<close>

definition AppendFieldsIntoEntryLogger ::
  "Context \<Rightarrow> (string \<times> 'v) list \<Rightarrow> 'v heap \<Rightarrow> error option \<times> 'v heap" where
  "AppendFieldsIntoEntryLogger ctx flds heap =
     (case ctx_extraFields ctx of
        None \<Rightarrow> (Some entry_logger_missing, heap)
      | Some a \<Rightarrow> (None, heap(a := fold (\<lambda>(k, v) data. data(k \<mapsto> v)) flds (heap a))))"

definition AppendFieldIntoEntryLogger ::
  "Context \<Rightarrow> string \<Rightarrow> 'v \<Rightarrow> 'v heap \<Rightarrow> error option \<times> 'v heap" where
  "AppendFieldIntoEntryLogger ctx key val heap =
     (case ctx_extraFields ctx of
        None \<Rightarrow> (Some entry_logger_missing, heap)
      | Some a \<Rightarrow> (None, heap(a := (heap a)(key \<mapsto> val))))"

section \<open>Logging, handlers and how a call runs\<close>

datatype Level = PanicLevel | FatalLevel | ErrorLevel | WarnLevel | InfoLevel | DebugLevel | TraceLevel

record LogRecord =
  lr_level :: Level
  lr_data :: "field Fields"
  lr_message :: string

text \<open>
  \<^verbatim>\<open>Logger(ctx)\<close>: the entry of the context, or a new entry of the standard logger,
  which has no fields. An entry is modelled by its data.
\<close>

definition Logger :: "Context \<Rightarrow> field Fields" where
  "Logger ctx = (case ctx_logger ctx of None \<Rightarrow> Map.empty | Some logger \<Rightarrow> logger)"

definition WithField :: "field Fields \<Rightarrow> string \<Rightarrow> field \<Rightarrow> field Fields" where
  "WithField l k v = l(k \<mapsto> v)"

definition WithFields :: "field Fields \<Rightarrow> field Fields \<Rightarrow> field Fields" where
  "WithFields l m = l ++ m"

definition WithError :: "field Fields \<Rightarrow> error \<Rightarrow> field Fields" where
  "WithError l err = WithField l ''error'' (FError err)"

text \<open>
  A Go call either returns its results or panics. The panic value is \<open>None\<close> for
  \<^verbatim>\<open>panic(nil)\<close>, after which \<^verbatim>\<open>recover()\<close> stops the panic and returns nil (the
  module is at \<^verbatim>\<open>go 1.16\<close>); any other value is identified with its rendering by the
  verb \<^verbatim>\<open>%v\<close>.
\<close>

datatype 'a outcome = Return 'a | Panic "string option"

text \<open>
  What running a handler (or an interceptor around it) amounts to: the log records it
  emits with the instant of each, the instant and the way it ends (\<open>None\<close>: it never
  ends), and the number of calls \<^verbatim>\<open>handler(ctx, req)\<close> made on the way, at this stage and
  the stages below it. A handler result is the pair \<^verbatim>\<open>(resp, err)\<close>, each possibly nil.
  The steps of an interceptor itself take no time; only handlers and waiting do.
\<close>

record 'r run =
  logged :: "(time \<times> LogRecord) list"
  ended :: "(time \<times> ('r option \<times> error option) outcome) option"
  invocations :: nat

type_synonym ('q, 'r) UnaryHandler = "Context \<Rightarrow> 'q \<Rightarrow> 'r run"

type_synonym ('q, 'r) UnaryServerInterceptor = "Context \<Rightarrow> 'q \<Rightarrow> ('q, 'r) UnaryHandler \<Rightarrow> 'r run"

text \<open>The call \<^verbatim>\<open>handler(ctx, req)\<close>, counted.\<close>

definition invoke :: "('q, 'r) UnaryHandler \<Rightarrow> Context \<Rightarrow> 'q \<Rightarrow> 'r run" where
  "invoke handler ctx req = (let r = handler ctx req in r\<lparr>invocations := Suc (invocations r)\<rparr>)"

text \<open>
  A \<^verbatim>\<open>select\<close> over the channel a goroutine sends its result on and the \<^verbatim>\<open>Done()\<close>
  channel of a context that ends at \<open>(t, e)\<close>. The goroutine sends at instant \<open>d\<close>, if it
  ever does. The case that is ready first is taken; when both are ready at the same
  instant Go takes either, and \<open>pick\<close> says which (\<open>True\<close>: the goroutine's channel).
\<close>

datatype 'a selected = Received time 'a | DoneClosed time ctx_error

fun select :: "bool \<Rightarrow> (time \<times> 'a) option \<Rightarrow> time \<times> ctx_error \<Rightarrow> 'a selected" where
  "select pick None (t, e) = DoneClosed t e"
| "select pick (Some (d, v)) (t, e) =
     (if d < t \<or> (d = t \<and> pick) then Received d v else DoneClosed t e)"

section \<open>The Timeout interceptor (shared-go-libs/grpcd)\<close>

text \<open>
  \<open>dt\<close> is the configured \<^verbatim>\<open>time.Duration\<close>. The goroutine runs the handler on the
  original context; its panic travels through \<^verbatim>\<open>panicChan\<close>, its result through
  \<^verbatim>\<open>respChan\<close>, and the \<^verbatim>\<open>select\<close> waits for these and for \<^verbatim>\<open>ctx2.Done()\<close>. When the
  context ends first the goroutine is left running: its log records stay in the run, its
  result is dropped.

  \<open>Timeout_goroutine\<close> is what the goroutine sends and when. Its deferred function
  sends the recovered value only if \<^verbatim>\<open>p != nil\<close>: after \<^verbatim>\<open>panic(nil)\<close> it sends nothing
  and the goroutine is over.
\<close>

datatype 'r message = FromPanicChan string | FromRespChan "'r option" "error option"

definition Timeout_goroutine ::
  "(time \<times> ('r option \<times> error option) outcome) option \<Rightarrow> (time \<times> 'r message) option" where
  "Timeout_goroutine b =
     (case b of
        None \<Rightarrow> None
      | Some (d, Panic None) \<Rightarrow> None
      | Some (d, Panic (Some p)) \<Rightarrow> Some (d, FromPanicChan p)
      | Some (d, Return (resp, err)) \<Rightarrow> Some (d, FromRespChan resp err))"

definition timeout_fields :: "field Fields \<Rightarrow> error \<Rightarrow> int \<Rightarrow> time \<Rightarrow> field Fields" where
  "timeout_fields l err dt t =
     WithFields (WithError l err) [''timeout'' \<mapsto> FDuration dt, ''duration'' \<mapsto> FDuration (int t)]"

definition Timeout :: "int \<Rightarrow> bool \<Rightarrow> ('q, 'r) UnaryServerInterceptor" where
  "Timeout dt pick ctx req handler =
     (let l = Logger ctx in
      case Err ctx 0 of
        Some err \<Rightarrow>
          \<lparr>logged = [(0, \<lparr>lr_level = WarnLevel, lr_data = WithError l (ContextError err),
                          lr_message = ''Caught canceled before processing the request''\<rparr>)],
           ended = Some (0, Return (None, Some (StatusError Canceled ''Canceled by caller''))),
           invocations = 0\<rparr>
      | None \<Rightarrow>
          if dt \<le> 0 then invoke handler ctx req
          else
            (let g = invoke handler ctx req in
             case select pick (Timeout_goroutine (ended g)) (WithTimeout_end ctx (nat dt)) of
               Received d (FromPanicChan r) \<Rightarrow> g\<lparr>ended := Some (d, Panic (Some r))\<rparr>
             | DoneClosed t err2 \<Rightarrow>
                 (case Err ctx t of
                    Some err \<Rightarrow>
                      g\<lparr>logged := logged g @
                           [(t, \<lparr>lr_level = WarnLevel,
                                 lr_data = timeout_fields l (ContextError err) dt t,
                                 lr_message = ''Caught canceled while processing the request''\<rparr>)],
                        ended := Some (t, Return (None, Some (StatusError Canceled ''Canceled by caller'')))\<rparr>
                  | None \<Rightarrow>
                      g\<lparr>logged := logged g @
                           [(t, \<lparr>lr_level = WarnLevel,
                                 lr_data = timeout_fields l (ContextError err2) dt t,
                                 lr_message = ''Caught timeout while processing the request''\<rparr>)],
                        ended := Some (t, Return (None, Some (StatusError DeadlineExceeded ''Deadline exceeded'')))\<rparr>)
             | Received d (FromRespChan resp err) \<Rightarrow> g\<lparr>ended := Some (d, Return (resp, err))\<rparr>))"

section \<open>The Recovery interceptor and the chain\<close>






section \<open>Running the health checks (service-healthcheck/daemon.go)\<close>

record CheckingState =
  cs_State :: State
  cs_Output :: string

text \<open>The private struct \<^verbatim>\<open>checkingState\<close>; an error is kept as its message.\<close>

record checkingState =
  st_State :: State
  st_Output :: string
  st_Error :: "string option"

text \<open>
  A checking function, run on a context: the instant and the way it ends, or \<open>None\<close>
  when it never does. It returns \<^verbatim>\<open>(*CheckingState, error)\<close>, each possibly nil.
\<close>

type_synonym CheckingFunc =
  "Context \<Rightarrow> (time \<times> (CheckingState option \<times> string option) outcome) option"

record checkFunc =
  cf_Name :: string
  cf_Func :: CheckingFunc

record healthcheck =
  hc_Timeout :: int
  hc_Service :: string
  hc_Environment :: string
  hc_Version :: string
  hc_Host :: string
  hc_GoVersion :: string
  hc_Checks :: "checkFunc list"

definition DefaultTimeout :: int where
  "DefaultTimeout = 10 * 1000000000"

definition AddCheck :: "healthcheck \<Rightarrow> string \<Rightarrow> CheckingFunc \<Rightarrow> healthcheck" where
  "AddCheck h name f = h\<lparr>hc_Checks := hc_Checks h @ [\<lparr>cf_Name = name, cf_Func = f\<rparr>]\<rparr>"

definition runtime :: "healthcheck \<Rightarrow> Runtime" where
  "runtime h = \<lparr>Host = hc_Host h, GoVersion = hc_GoVersion h, Service = hc_Service h,
                Environment = hc_Environment h, Version = hc_Version h\<rparr>"

definition Error_text :: "ctx_error \<Rightarrow> string" where
  "Error_text e = (case e of
                     context_Canceled \<Rightarrow> ''context canceled''
                   | context_DeadlineExceeded \<Rightarrow> ''context deadline exceeded'')"

definition panicked :: "string \<Rightarrow> string \<Rightarrow> checkingState" where
  "panicked stack p =
     \<lparr>st_State = StateUnhealthy,
      st_Output = ''checking panicked: '' @ p @ '', stacktrace: '' @ stack,
      st_Error = Some (''checking panicked: '' @ p)\<rparr>"

text \<open>
  The goroutine of \<^verbatim>\<open>runCheck\<close>: what it sends on \<^verbatim>\<open>doneChan\<close> and when. Its deferred
  function sends only if \<^verbatim>\<open>p != nil\<close>: after \<^verbatim>\<open>panic(nil)\<close> nothing is sent. Reading
  \<^verbatim>\<open>r.State\<close> of a nil result without an error is a nil dereference, a panic with a
  runtime error as its value, which the deferred function reports like any other.
\<close>

definition runCheck_goroutine ::
  "string \<Rightarrow> (time \<times> (CheckingState option \<times> string option) outcome) option \<Rightarrow>
   (time \<times> checkingState) option" where
  "runCheck_goroutine stack b =
     (case b of
        None \<Rightarrow> None
      | Some (d, Panic None) \<Rightarrow> None
      | Some (d, Panic (Some p)) \<Rightarrow> Some (d, panicked stack p)
      | Some (d, Return (r, Some err)) \<Rightarrow>
          Some (d, \<lparr>st_State = StateUnhealthy, st_Output = ''checking failed: '' @ err,
                    st_Error = Some (''checking failed: '' @ err)\<rparr>)
      | Some (d, Return (None, None)) \<Rightarrow>
          Some (d, panicked stack ''runtime error: invalid memory address or nil pointer dereference'')
      | Some (d, Return (Some r, None)) \<Rightarrow>
          Some (d, \<lparr>st_State = cs_State r, st_Output = cs_Output r, st_Error = None\<rparr>))"

text \<open>\<^verbatim>\<open>runCheck\<close>: the instant at which it returns, and what it returns.\<close>

definition runCheck :: "string \<Rightarrow> bool \<Rightarrow> Context \<Rightarrow> int \<Rightarrow> CheckingFunc \<Rightarrow> time \<times> checkingState" where
  "runCheck stack pick ctx timeout f =
     (let ctxTimeout = WithTimeout ctx (nat timeout) in
      case select pick (runCheck_goroutine stack (f ctxTimeout)) (WithTimeout_end ctx (nat timeout)) of
        DoneClosed t err \<Rightarrow>
          if Some err \<noteq> Err ctx t
          then (t, \<lparr>st_State = StateUnknown,
                    st_Output = ''checking timeout: '' @ Error_text err,
                    st_Error = Some (''checking timeout: '' @ Error_text err)\<rparr>)
          else (t, \<lparr>st_State = StateUnknown,
                    st_Output = ''checking canceled by caller: '' @ Error_text err,
                    st_Error = Some (''checking canceled by caller:'' @ Error_text err)\<rparr>)
      | Received d r \<Rightarrow> (d, r))"

text \<open>The goroutine \<^verbatim>\<open>RunChecks\<close> starts for one check: the value it stores in its slot.\<close>

definition RunChecks_goroutine ::
  "string \<Rightarrow> bool \<Rightarrow> Context \<Rightarrow> int \<Rightarrow> checkFunc \<Rightarrow> CheckingResult" where
  "RunChecks_goroutine stack pick ctx timeout check =
     (case runCheck stack pick ctx timeout (cf_Func check) of
        (t, r) \<Rightarrow> \<lparr>State = st_State r, Output = st_Output r, Name = cf_Name check, Duration = t\<rparr>)"

text \<open>
  \<^verbatim>\<open>RunChecks\<close>. The goroutines finish in some order \<open>sched\<close>, a list of slot indices,
  and each stores into its own slot of \<^verbatim>\<open>ress\<close> when it finishes; \<^verbatim>\<open>wg.Wait()\<close> returns
  once all have. \<open>pick idx\<close> settles the \<^verbatim>\<open>select\<close> of check \<open>idx\<close>. The slice starts
  with zero values. The total duration is the instant the last goroutine finishes.
\<close>

definition zero_CheckingResult :: CheckingResult where
  "zero_CheckingResult = \<lparr>State = 0, Output = [], Name = [], Duration = 0\<rparr>"

definition RunChecks ::
  "string \<Rightarrow> (nat \<Rightarrow> bool) \<Rightarrow> nat list \<Rightarrow> healthcheck \<Rightarrow> Context \<Rightarrow> CheckingResults" where
  "RunChecks stack pick sched h ctx =
     (if length (hc_Checks h) \<le> 0
      then \<lparr>Checks = [], TotalDuration = 0, Runtime = runtime h\<rparr>
      else
        (let timeout = (if hc_Timeout h \<le> 0 then DefaultTimeout else hc_Timeout h);
             ctx = WithCancel ctx;
             ress = fold (\<lambda>idx ress.
                       ress[idx := RunChecks_goroutine stack (pick idx) ctx timeout (hc_Checks h ! idx)])
                     sched (replicate (length (hc_Checks h)) zero_CheckingResult)
         in \<lparr>Checks = ress, TotalDuration = fold max (map Duration ress) 0, Runtime = runtime h\<rparr>))"

section \<open>Notions used in the statements\<close>

text \<open>
  \<open>exceeds t b\<close>: a computation that ends as \<open>b\<close> says is still running when the
  instant \<open>t\<close> has passed (it ends later than \<open>t\<close>, or never).
\<close>

definition exceeds :: "time \<Rightarrow> (time \<times> 'a) option \<Rightarrow> bool" where
  "exceeds t b = (case b of None \<Rightarrow> True | Some (d, _) \<Rightarrow> t < d)"


text \<open>The timeout \<^verbatim>\<open>RunChecks\<close> gives every check.\<close>

definition check_timeout :: "healthcheck \<Rightarrow> int" where
  "check_timeout h = (if hc_Timeout h \<le> 0 then DefaultTimeout else hc_Timeout h)"

section \<open>Values used in the examples\<close>

definition example_runtime :: Runtime where
  "example_runtime = \<lparr>Host = ''host-1'', GoVersion = ''go1.16'', Service = ''template-grpc-service'',
                       Environment = ''dev'', Version = ''dev''\<rparr>"

definition report :: "CheckingResult list \<Rightarrow> CheckingResults" where
  "report cs = \<lparr>Checks = cs, TotalDuration = 0, Runtime = example_runtime\<rparr>"

definition check_ok :: CheckingResult where
  "check_ok = \<lparr>State = StateHealthy, Output = ''ok'', Name = ''check-ok'', Duration = 19781\<rparr>"

definition check_warning :: CheckingResult where
  "check_warning = \<lparr>State = StateDegraded, Output = ''not-well'', Name = ''check-warning'',
                     Duration = 12234002110\<rparr>"

definition check_critical :: CheckingResult where
  "check_critical = \<lparr>State = StateUnhealthy, Output = ''dead'', Name = ''check-critical'',
                      Duration = 5100211264\<rparr>"

definition check_unknown :: CheckingResult where
  "check_unknown = \<lparr>State = StateUnknown, Output = ''what is happening?'', Name = ''check-unknown'',
                     Duration = 190422404\<rparr>"

text \<open>
  A codec for the examples, standing in for \<^verbatim>\<open>encoding/json\<close> on strings that need no
  escaping: the text between double quotes.
\<close>

definition quoted :: "string \<Rightarrow> bytes" where
  "quoted s = CHR 0x22 # s @ [CHR 0x22]"

definition unquoted :: "bytes \<Rightarrow> string + string" where
  "unquoted b =
     (case b of
        [] \<Rightarrow> Inl ''unexpected end of JSON input''
      | c # r \<Rightarrow>
          if c = CHR 0x22 \<and> r \<noteq> [] \<and> last r = CHR 0x22 then Inr (butlast r)
          else Inl ''json: cannot unmarshal into Go value of type string'')"

definition state_names :: "string set" where
  "state_names = {''healthy'', ''degraded'', ''unhealthy'', ''unknown''}"

text \<open>Contexts: one that never ends, with and without a trace header.\<close>

definition background :: Context where
  "background = \<lparr>ctx_end = None, ctx_logger = None, ctx_extraFields = None,
                  ctx_incoming = None, ctx_peer = None\<rparr>"

definition some_uuid :: string where
  "some_uuid = ''123e4567-e89b-12d3-a456-426614174000''"

definition with_trace_header :: "string \<Rightarrow> Context" where
  "with_trace_header v = background\<lparr>ctx_incoming := Some [''trace-id'' \<mapsto> [v]]\<rparr>"

definition trusting :: EntryConfigs where
  "trusting = \<lparr>AllowTraceIDFromRequest = True, ReturnRequestIDInHeader = False\<rparr>"

definition distrusting :: EntryConfigs where
  "distrusting = \<lparr>AllowTraceIDFromRequest = False, ReturnRequestIDInHeader = False\<rparr>"

text \<open>
  Handlers: one that echoes the request after a while, one that panics with a value, one
  that calls \<^verbatim>\<open>panic(nil)\<close>, one that hangs.
\<close>

definition echo_after :: "time \<Rightarrow> (string, string) UnaryHandler" where
  "echo_after d ctx req = \<lparr>logged = [], ended = Some (d, Return (Some req, None)), invocations = 0\<rparr>"



definition hangs :: "(string, string) UnaryHandler" where
  "hangs ctx req = \<lparr>logged = [], ended = None, invocations = 0\<rparr>"

definition canceled_at :: "time \<Rightarrow> Context" where
  "canceled_at t = background\<lparr>ctx_end := Some (t, context_Canceled)\<rparr>"

text \<open>Checks: A is always healthy, B sleeps for three seconds; the checker allows two.\<close>

definition always_healthy :: CheckingFunc where
  "always_healthy ctx =
     Some (1000, Return (Some \<lparr>cs_State = StateHealthy, cs_Output = ''all good''\<rparr>, None))"

definition sleeps :: "time \<Rightarrow> CheckingFunc" where
  "sleeps d ctx =
     Some (d, Return (Some \<lparr>cs_State = StateHealthy, cs_Output = ''woke up''\<rparr>, None))"

definition checker :: healthcheck where
  "checker = \<lparr>hc_Timeout = 2000000000, hc_Service = ''test-service'',
               hc_Environment = ''test-environment'', hc_Version = ''test-version'',
               hc_Host = ''host-1'', hc_GoVersion = ''go1.16'', hc_Checks = []\<rparr>"

definition A_and_B :: healthcheck where
  "A_and_B = AddCheck (AddCheck checker ''A'' always_healthy) ''B'' (sleeps 3000000000)"

section \<open>Properties of the rollups\<close>

lemmas State_defs = StateHealthy_def StateDegraded_def StateUnhealthy_def StateUnknown_def

lemma IsHealthy_loop_iff:
  "IsHealthy_loop cs \<longleftrightarrow> (\<forall>c \<in> set cs. State c = StateHealthy \<or> State c = StateDegraded)"
  by (induction cs) auto

lemma IsDegraded_loop_iff:
  "IsDegraded_loop cs \<longleftrightarrow> (\<exists>c \<in> set cs. State c = StateDegraded)"
  by (induction cs) auto

lemma GetState_loop_eq:
  "GetState_loop cs h d =
     (h \<and> (\<forall>c \<in> set cs. State c = StateHealthy),
      d \<and> (\<forall>c \<in> set cs. State c = StateHealthy \<or> State c = StateDegraded))"
  by (induction cs arbitrary: h d) auto
text \<open>
  C5. With zero checks \<^verbatim>\<open>IsHealthy()\<close> is false and \<^verbatim>\<open>GetState()\<close> is unhealthy. With
  at least one check and every check exactly healthy, \<^verbatim>\<open>GetState()\<close> is healthy. With
  at least one degraded check and all other checks healthy, \<^verbatim>\<open>IsHealthy()\<close> and
  \<^verbatim>\<open>IsDegraded()\<close> are true and \<^verbatim>\<open>GetState()\<close> is degraded. With at least one unhealthy
  check \<^verbatim>\<open>IsHealthy()\<close> is false.
\<close>

theorem rollup_cases:
  "(Checks c = [] \<longrightarrow> \<not> IsHealthy c \<and> GetState c = StateUnhealthy) \<and>
   (Checks c \<noteq> [] \<and> (\<forall>k \<in> set (Checks c). State k = StateHealthy)
      \<longrightarrow> GetState c = StateHealthy) \<and>
   ((\<exists>k \<in> set (Checks c). State k = StateDegraded) \<and>
    (\<forall>k \<in> set (Checks c). State k = StateDegraded \<or> State k = StateHealthy)
      \<longrightarrow> IsHealthy c \<and> IsDegraded c \<and> GetState c = StateDegraded) \<and>
   ((\<exists>k \<in> set (Checks c). State k = StateUnhealthy) \<longrightarrow> \<not> IsHealthy c)"
proof (intro conjI impI)
  assume "Checks c = []"
  then show "\<not> IsHealthy c" and "GetState c = StateUnhealthy"
    by (simp_all add: IsHealthy_def GetState_def)
next
  assume "Checks c \<noteq> [] \<and> (\<forall>k \<in> set (Checks c). State k = StateHealthy)"
  then show "GetState c = StateHealthy"
    by (simp add: GetState_def GetState_loop_eq Let_def)
next
  assume a: "(\<exists>k \<in> set (Checks c). State k = StateDegraded) \<and>
             (\<forall>k \<in> set (Checks c). State k = StateDegraded \<or> State k = StateHealthy)"
  then have ne: "Checks c \<noteq> []" by auto
  from a ne show "IsHealthy c"
    by (auto simp: IsHealthy_def IsHealthy_loop_iff)
  from a ne show "IsDegraded c"
    by (auto simp: IsDegraded_def IsDegraded_loop_iff)
  from a obtain k where k: "k \<in> set (Checks c)" "State k = StateDegraded"
    by auto
  then have "State k \<noteq> StateHealthy"
    by (simp add: State_defs)
  with k have "\<not> (\<forall>k \<in> set (Checks c). State k = StateHealthy)"
    by blast
  with a ne show "GetState c = StateDegraded"
    by (auto simp: GetState_def GetState_loop_eq Let_def)
next
  assume "\<exists>k \<in> set (Checks c). State k = StateUnhealthy"
  then obtain k where k: "k \<in> set (Checks c)" "State k = StateUnhealthy"
    by auto
  then have "State k \<noteq> StateHealthy \<and> State k \<noteq> StateDegraded"
    by (simp add: State_defs)
  with k have "\<not> IsHealthy_loop (Checks c)"
    unfolding IsHealthy_loop_iff by blast
  then show "\<not> IsHealthy c"
    by (simp add: IsHealthy_def Let_def)
qed

theorem rollup_cases_witness:
  "\<not> IsHealthy (report []) \<and> GetState (report []) = StateUnhealthy \<and>
   GetState (report [check_ok, check_ok, check_ok]) = StateHealthy \<and>
   IsHealthy (report [check_ok, check_warning]) \<and>
   IsDegraded (report [check_ok, check_warning]) \<and>
   GetState (report [check_ok, check_warning]) = StateDegraded \<and>
   \<not> IsHealthy (report [check_ok, check_critical, check_ok])"
  using rollup_cases [of "report []"]
    rollup_cases [of "report [check_ok, check_ok, check_ok]"]
    rollup_cases [of "report [check_ok, check_warning]"]
    rollup_cases [of "report [check_ok, check_critical, check_ok]"]
  by (simp add: report_def check_ok_def check_warning_def check_critical_def State_defs)

text \<open>
  C10. \<^verbatim>\<open>GetState()\<close> is always one of healthy, degraded and unhealthy, never unknown,
  and a check whose own state is unknown or unhealthy makes the overall state unhealthy.
\<close>

theorem GetState_never_unknown:
  "GetState c \<in> {StateHealthy, StateDegraded, StateUnhealthy} \<and>
   GetState c \<noteq> StateUnknown \<and>
   ((\<exists>k \<in> set (Checks c). State k = StateUnknown \<or> State k = StateUnhealthy)
      \<longrightarrow> GetState c = StateUnhealthy)"
proof (intro conjI impI)
  show range: "GetState c \<in> {StateHealthy, StateDegraded, StateUnhealthy}"
    by (simp add: GetState_def Let_def split: prod.split)
  then show "GetState c \<noteq> StateUnknown"
    by (auto simp: State_defs)
next
  assume "\<exists>k \<in> set (Checks c). State k = StateUnknown \<or> State k = StateUnhealthy"
  then obtain k where k: "k \<in> set (Checks c)" "State k \<noteq> StateHealthy" "State k \<noteq> StateDegraded"
    by (auto simp: State_defs)
  then have "Checks c \<noteq> []" by auto
  with k show "GetState c = StateUnhealthy"
    by (auto simp: GetState_def GetState_loop_eq Let_def)
qed

theorem GetState_never_unknown_witness:
  "GetState (report [check_ok, check_unknown]) = StateUnhealthy \<and>
   GetState (report [check_critical, check_warning]) = StateUnhealthy \<and>
   GetState (report [check_unknown]) \<noteq> StateUnknown"
  using GetState_never_unknown [of "report [check_ok, check_unknown]"]
    GetState_never_unknown [of "report [check_critical, check_warning]"]
    GetState_never_unknown [of "report [check_unknown]"]
  by (simp add: report_def check_unknown_def check_critical_def)

section \<open>Properties of the state names\<close>

lemma String_names:
  "String StateHealthy = ''healthy''" "String StateDegraded = ''degraded''"
  "String StateUnhealthy = ''unhealthy''" "String StateUnknown = ''unknown''"
  by (simp_all add: String_def stateToName_def State_defs)

lemma nameToState_names:
  "nameToState ''healthy'' = Some StateHealthy" "nameToState ''degraded'' = Some StateDegraded"
  "nameToState ''unhealthy'' = Some StateUnhealthy" "nameToState ''unknown'' = Some StateUnknown"
  by (simp_all add: nameToState_def)

lemma nameToState_other: "str \<notin> state_names \<Longrightarrow> nameToState str = None"
  by (simp add: nameToState_def state_names_def)

lemma unquoted_quoted: "unquoted (quoted x) = Inr x"
  by (simp add: unquoted_def quoted_def)

text \<open>
  C8. For each of the four defined states, the string form read back through the name
  table is the state itself, and so is the state after marshalling and unmarshalling,
  provided the JSON codec reads back the four names it wrote. Unmarshalling input that
  decodes to a string other than the four names gives the unknown state and no error.
\<close>

theorem State_round_trip:
  assumes codec: "\<And>x. x \<in> state_names \<Longrightarrow> unmarshal (marshal x) = Inr x"
  shows "(s \<in> {StateHealthy, StateDegraded, StateUnhealthy, StateUnknown} \<longrightarrow>
            nameToState (String s) = Some s \<and>
            UnmarshalJSON unmarshal old (MarshalJSON marshal s) = (None, s)) \<and>
         (unmarshal b = Inr str \<and> str \<notin> state_names \<longrightarrow>
            UnmarshalJSON unmarshal old b = (None, StateUnknown))"
proof (intro conjI impI)
  assume s: "s \<in> {StateHealthy, StateDegraded, StateUnhealthy, StateUnknown}"
  then show names: "nameToState (String s) = Some s"
    by (auto simp: String_names nameToState_names)
  from s have "String s \<in> state_names"
    by (auto simp: String_names state_names_def)
  then have "unmarshal (marshal (String s)) = Inr (String s)"
    by (rule codec)
  with names show "UnmarshalJSON unmarshal old (MarshalJSON marshal s) = (None, s)"
    by (simp add: UnmarshalJSON_def MarshalJSON_def)
next
  assume "unmarshal b = Inr str \<and> str \<notin> state_names"
  then show "UnmarshalJSON unmarshal old b = (None, StateUnknown)"
    by (simp add: UnmarshalJSON_def nameToState_other)
qed

theorem State_round_trip_witness:
  "UnmarshalJSON unquoted StateHealthy (MarshalJSON quoted StateDegraded) = (None, StateDegraded) \<and>
   UnmarshalJSON unquoted StateHealthy (MarshalJSON quoted StateUnknown) = (None, StateUnknown) \<and>
   UnmarshalJSON unquoted StateHealthy (quoted ''sick'') = (None, StateUnknown)"
proof -
  have codec: "\<And>x. x \<in> state_names \<Longrightarrow> unquoted (quoted x) = Inr x"
    by (simp add: unquoted_quoted)
  have other: "unquoted (quoted ''sick'') = Inr ''sick'' \<and> ''sick'' \<notin> state_names"
    by (simp add: unquoted_quoted state_names_def)
  from State_round_trip [where marshal = quoted and unmarshal = unquoted and s = StateDegraded
        and old = StateHealthy and b = "quoted ''sick''" and str = "''sick''", OF codec]
    State_round_trip [where marshal = quoted and unmarshal = unquoted and s = StateUnknown
        and old = StateHealthy and b = "quoted ''sick''" and str = "''sick''", OF codec]
    other
  show ?thesis by simp
qed

section \<open>Properties of the request context\<close>

lemma traceID_cases:
  "traceIDFromIncomingMetadata uuid_ok ctx rid readCtx =
     (case headerValues ctx MetaKeyTraceID of
        [] \<Rightarrow> rid
      | v0 # _ \<Rightarrow> if readCtx \<and> uuid_ok v0 then v0 else rid)"
  by (simp add: traceIDFromIncomingMetadata_def split: list.split)

lemma BuildRequestContext_ids:
  "RequestID (BuildRequestContext uuid_ok ParseIP SplitHostPort rid now ctx c) = rid"
  "TraceID (BuildRequestContext uuid_ok ParseIP SplitHostPort rid now ctx c) =
     traceIDFromIncomingMetadata uuid_ok ctx rid (AllowTraceIDFromRequest c)"
  by (simp_all add: BuildRequestContext_def Let_def)

lemma ToLower_MetaKeyTraceID: "ToLower MetaKeyTraceID = ''trace-id''"
  by code_simp

lemma headerValues_with_trace_header:
  "headerValues (with_trace_header v) MetaKeyTraceID = [v]"
  by (simp add: headerValues_def with_trace_header_def md_Get_def ToLower_MetaKeyTraceID)

lemma headerValues_background: "headerValues background key = []"
  by (simp add: headerValues_def background_def)

text \<open>
  C7. Let \<open>r\<close> be the request context built for a call whose fresh request id is \<open>rid\<close>.
  If the configuration trusts trace ids of the caller and the first value \<open>v0\<close> of the
  trace header parses as a UUID, the trace id is \<open>v0\<close>. If trust is off, or the header
  is absent, or its first value does not parse, the trace id is the request id, which is
  \<open>rid\<close>. Hence, for a header value other than the fresh request id, the trace id is
  the header value if and only if trust is on and the value parses.
\<close>

theorem trace_id_source:
  "(AllowTraceIDFromRequest c \<and> headerValues ctx MetaKeyTraceID = v0 # vs \<and> uuid_ok v0
      \<longrightarrow> TraceID (BuildRequestContext uuid_ok ParseIP SplitHostPort rid now ctx c) = v0) \<and>
   (\<not> AllowTraceIDFromRequest c \<or> headerValues ctx MetaKeyTraceID = [] \<or>
    (headerValues ctx MetaKeyTraceID = v0 # vs \<and> \<not> uuid_ok v0)
      \<longrightarrow> TraceID (BuildRequestContext uuid_ok ParseIP SplitHostPort rid now ctx c) = rid \<and>
          RequestID (BuildRequestContext uuid_ok ParseIP SplitHostPort rid now ctx c) = rid) \<and>
   (headerValues ctx MetaKeyTraceID = v0 # vs \<and> v0 \<noteq> rid
      \<longrightarrow> (TraceID (BuildRequestContext uuid_ok ParseIP SplitHostPort rid now ctx c) = v0
           \<longleftrightarrow> AllowTraceIDFromRequest c \<and> uuid_ok v0))"
  by (auto simp: BuildRequestContext_ids traceID_cases split: list.splits)

theorem trace_id_source_witness:
  "TraceID (BuildRequestContext (\<lambda>v. v = some_uuid) (\<lambda>s. None) (\<lambda>s. None) ''fresh-id'' 0
      (with_trace_header some_uuid) trusting) = some_uuid \<and>
   TraceID (BuildRequestContext (\<lambda>v. v = some_uuid) (\<lambda>s. None) (\<lambda>s. None) ''fresh-id'' 0
      (with_trace_header some_uuid) distrusting) = ''fresh-id'' \<and>
   TraceID (BuildRequestContext (\<lambda>v. v = some_uuid) (\<lambda>s. None) (\<lambda>s. None) ''fresh-id'' 0
      (with_trace_header ''not-a-uuid'') trusting) = ''fresh-id'' \<and>
   TraceID (BuildRequestContext (\<lambda>v. v = some_uuid) (\<lambda>s. None) (\<lambda>s. None) ''fresh-id'' 0
      background trusting) = ''fresh-id''"
  using
    trace_id_source [of trusting "with_trace_header some_uuid" some_uuid "[]" "\<lambda>v. v = some_uuid"
      "\<lambda>s. None" "\<lambda>s. None" "''fresh-id''" 0]
    trace_id_source [of distrusting "with_trace_header some_uuid" some_uuid "[]" "\<lambda>v. v = some_uuid"
      "\<lambda>s. None" "\<lambda>s. None" "''fresh-id''" 0]
    trace_id_source [of trusting "with_trace_header ''not-a-uuid''" "''not-a-uuid''" "[]"
      "\<lambda>v. v = some_uuid" "\<lambda>s. None" "\<lambda>s. None" "''fresh-id''" 0]
    trace_id_source [of trusting background some_uuid "[]" "\<lambda>v. v = some_uuid"
      "\<lambda>s. None" "\<lambda>s. None" "''fresh-id''" 0]
  by (simp add: headerValues_with_trace_header headerValues_background trusting_def
      distrusting_def some_uuid_def)

section \<open>Properties of the extra fields\<close>

lemma fold_upd_map_of:
  "fold (\<lambda>(k, v) data. data(k \<mapsto> v)) xs m = m ++ map_of (rev xs)"
  by (induction xs arbitrary: m) (auto simp: map_add_upd_left)

lemma map_of_rev_distinct:
  "distinct (map fst xs) \<Longrightarrow> (k, v) \<in> set xs \<Longrightarrow> map_of (rev xs) k = Some v"
  by (simp add: distinct_rev rev_map [symmetric] del: rev_map)

text \<open>
  C9. On a context without the extra fields of \<^verbatim>\<open>EntryLogs\<close>, both append operations
  return the descriptive error, a proper result and not a panic, and leave every map as
  it was. On a context that carries the fields they return nil and the map of the
  context holds the appended field, or all the appended fields, afterwards, its other
  keys and all other maps being as before.
\<close>

theorem append_field_scope:
  "(ctx_extraFields ctx = None \<longrightarrow>
      AppendFieldIntoEntryLogger ctx key val heap = (Some entry_logger_missing, heap) \<and>
      AppendFieldsIntoEntryLogger ctx flds heap = (Some entry_logger_missing, heap)) \<and>
   entry_logger_missing \<noteq> ErrorString [] \<and>
   fst (AppendFieldIntoEntryLogger (newContextWithEntryLogsExtraFields ctx a) key val heap) = None \<and>
   snd (AppendFieldIntoEntryLogger (newContextWithEntryLogsExtraFields ctx a) key val heap) =
     heap(a := (heap a)(key \<mapsto> val)) \<and>
   fst (AppendFieldsIntoEntryLogger (newContextWithEntryLogsExtraFields ctx a) flds heap) = None \<and>
   snd (AppendFieldsIntoEntryLogger (newContextWithEntryLogsExtraFields ctx a) flds heap) =
     heap(a := heap a ++ map_of (rev flds)) \<and>
   (distinct (map fst flds) \<longrightarrow>
      (\<forall>(k, v) \<in> set flds.
         snd (AppendFieldsIntoEntryLogger (newContextWithEntryLogsExtraFields ctx a) flds heap) a k
           = Some v))"
proof -
  have absent: "ctx_extraFields ctx = None \<longrightarrow>
      AppendFieldIntoEntryLogger ctx key val heap = (Some entry_logger_missing, heap) \<and>
      AppendFieldsIntoEntryLogger ctx flds heap = (Some entry_logger_missing, heap)"
    by (simp add: AppendFieldIntoEntryLogger_def AppendFieldsIntoEntryLogger_def)
  have descriptive: "entry_logger_missing \<noteq> ErrorString []"
    by (simp add: entry_logger_missing_def)
  have one: "AppendFieldIntoEntryLogger (newContextWithEntryLogsExtraFields ctx a) key val heap =
      (None, heap(a := (heap a)(key \<mapsto> val)))"
    by (simp add: AppendFieldIntoEntryLogger_def newContextWithEntryLogsExtraFields_def)
  have many: "AppendFieldsIntoEntryLogger (newContextWithEntryLogsExtraFields ctx a) flds heap =
      (None, heap(a := heap a ++ map_of (rev flds)))"
    by (simp add: AppendFieldsIntoEntryLogger_def newContextWithEntryLogsExtraFields_def
        fold_upd_map_of)
  have recorded: "distinct (map fst flds) \<longrightarrow>
      (\<forall>(k, v) \<in> set flds.
         snd (AppendFieldsIntoEntryLogger (newContextWithEntryLogsExtraFields ctx a) flds heap) a k
           = Some v)"
    by (auto simp: many map_add_Some_iff map_of_rev_distinct)
  from absent descriptive one many recorded show ?thesis
    by simp
qed

theorem append_field_scope_witness:
  "AppendFieldIntoEntryLogger background ''app'' (FString ''demo'') (\<lambda>a. Map.empty) =
     (Some entry_logger_missing, \<lambda>a. Map.empty) \<and>
   AppendFieldsIntoEntryLogger background [(''app'', FString ''demo'')] (\<lambda>a. Map.empty) =
     (Some entry_logger_missing, \<lambda>a. Map.empty) \<and>
   snd (AppendFieldsIntoEntryLogger (newContextWithEntryLogsExtraFields background 0)
          [(''app'', FString ''demo''), (''os'', FString ''linux'')] (\<lambda>a. Map.empty)) 0 ''os''
     = Some (FString ''linux'')"
proof -
  have none: "ctx_extraFields background = None"
    by (simp add: background_def)
  have keys: "distinct (map fst [(''app'', FString ''demo''), (''os'', FString ''linux'')])"
    by simp
  from append_field_scope [of background "''app''" "FString ''demo''" "\<lambda>a. Map.empty"
      "[(''app'', FString ''demo'')]" 0] none
  have absent:
    "AppendFieldIntoEntryLogger background ''app'' (FString ''demo'') (\<lambda>a. Map.empty) =
       (Some entry_logger_missing, \<lambda>a. Map.empty) \<and>
     AppendFieldsIntoEntryLogger background [(''app'', FString ''demo'')] (\<lambda>a. Map.empty) =
       (Some entry_logger_missing, \<lambda>a. Map.empty)"
    by blast
  from append_field_scope [of background "''app''" "FString ''demo''" "\<lambda>a. Map.empty"
      "[(''app'', FString ''demo''), (''os'', FString ''linux'')]" 0] keys
  have "\<forall>(k, v) \<in> set [(''app'', FString ''demo''), (''os'', FString ''linux'')].
      snd (AppendFieldsIntoEntryLogger (newContextWithEntryLogsExtraFields background 0)
          [(''app'', FString ''demo''), (''os'', FString ''linux'')] (\<lambda>a. Map.empty)) 0 k = Some v"
    by blast
  then have "snd (AppendFieldsIntoEntryLogger (newContextWithEntryLogsExtraFields background 0)
          [(''app'', FString ''demo''), (''os'', FString ''linux'')] (\<lambda>a. Map.empty)) 0 ''os''
     = Some (FString ''linux'')"
    by simp
  with absent show ?thesis by simp
qed

section \<open>Properties of the select and of contexts with a timeout\<close>

lemma WithTimeout_end_le: "fst (WithTimeout_end ctx d) \<le> d"
  by (simp add: WithTimeout_end_def split: option.split prod.split)

lemma Err_WithTimeout_end: "Err ctx (fst (WithTimeout_end ctx d)) = Err ctx d"
  by (simp add: WithTimeout_end_def Err_def split: option.split prod.split)

lemma WithTimeout_end_alive:
  "Err ctx d = None \<Longrightarrow> WithTimeout_end ctx d = (d, context_DeadlineExceeded)"
  by (auto simp: WithTimeout_end_def Err_def split: option.splits prod.splits if_splits)

lemma select_exceeds:
  "exceeds d b \<Longrightarrow>
   select pick b (WithTimeout_end ctx d) =
     DoneClosed (fst (WithTimeout_end ctx d)) (snd (WithTimeout_end ctx d))"
  using WithTimeout_end_le [of ctx d]
  by (cases b; cases "WithTimeout_end ctx d") (auto simp: exceeds_def)

lemma select_in_time:
  "d < t \<Longrightarrow> Err ctx d = None \<Longrightarrow>
   select pick (Some (d, v)) (WithTimeout_end ctx t) = Received d v"
  by (auto simp: WithTimeout_end_def Err_def split: option.splits prod.splits if_splits)

lemma Err_mono: "Err ctx d = None \<Longrightarrow> t \<le> d \<Longrightarrow> Err ctx t = None"
  by (auto simp: Err_def split: option.splits prod.splits if_splits)

lemma Timeout_goroutine_exceeds:
  "exceeds d b \<Longrightarrow> exceeds d (Timeout_goroutine b)"
  by (auto simp: Timeout_goroutine_def exceeds_def split: option.splits outcome.splits prod.splits)

lemma invoke_simps:
  "ended (invoke handler ctx req) = ended (handler ctx req)"
  "logged (invoke handler ctx req) = logged (handler ctx req)"
  "invocations (invoke handler ctx req) = Suc (invocations (handler ctx req))"
  by (simp_all add: invoke_def Let_def)

section \<open>Properties of the Timeout interceptor\<close>

text \<open>
  C2. When the incoming context has already ended on entry, \<^verbatim>\<open>Timeout\<close> returns a nil
  response with the status Canceled at once, whatever the configured timeout, positive
  or not. It makes no call of the handler: the count of handler calls is zero and the
  whole run is the same for any two handlers.
\<close>

theorem Timeout_pre_canceled:
  assumes "Err ctx 0 = Some e"
  shows "ended (Timeout dt pick ctx req handler) =
           Some (0, Return (None, Some (StatusError Canceled ''Canceled by caller''))) \<and>
         invocations (Timeout dt pick ctx req handler) = 0 \<and>
         Timeout dt pick ctx req handler = Timeout dt pick ctx req handler'"
  using assms by (simp add: Timeout_def)

theorem Timeout_pre_canceled_witness:
  "ended (Timeout 5000000000 True (canceled_at 0) ''ping'' (echo_after 1000)) =
     Some (0, Return (None, Some (StatusError Canceled ''Canceled by caller''))) \<and>
   invocations (Timeout 5000000000 True (canceled_at 0) ''ping'' (echo_after 1000)) = 0 \<and>
   ended (Timeout 0 True (canceled_at 0) ''ping'' (echo_after 1000)) =
     Some (0, Return (None, Some (StatusError Canceled ''Canceled by caller''))) \<and>
   invocations (Timeout 0 True (canceled_at 0) ''ping'' (echo_after 1000)) = 0"
proof -
  have pre: "Err (canceled_at 0) 0 = Some context_Canceled"
    by (simp add: Err_def canceled_at_def background_def)
  from Timeout_pre_canceled [OF pre, where dt = 5000000000 and pick = True and req = "''ping''"
        and handler = "echo_after 1000"]
    Timeout_pre_canceled [OF pre, where dt = 0 and pick = True and req = "''ping''"
        and handler = "echo_after 1000"]
  show ?thesis by simp
qed

text \<open>
  C1. Let a positive timeout be configured and let the handler still be running when
  the timeout has passed. Then \<^verbatim>\<open>Timeout\<close> returns a nil response with a status error:
  Canceled when the parent context has ended by then, DeadlineExceeded when it has not.
  It returns when the parent context ends or the timer fires, whichever is first.
\<close>

theorem Timeout_cause:
  assumes "0 < dt" and "exceeds (nat dt) (ended (handler ctx req))"
  shows "(Err ctx (nat dt) \<noteq> None \<longrightarrow>
            ended (Timeout dt pick ctx req handler) =
              Some (fst (WithTimeout_end ctx (nat dt)),
                    Return (None, Some (StatusError Canceled ''Canceled by caller'')))) \<and>
         (Err ctx (nat dt) = None \<longrightarrow>
            ended (Timeout dt pick ctx req handler) =
              Some (nat dt, Return (None, Some (StatusError DeadlineExceeded ''Deadline exceeded''))))"
proof (cases "Err ctx 0")
  case (Some e)
  then have "ctx_end ctx = Some (0, e)"
    by (auto simp: Err_def split: option.splits prod.splits if_splits)
  then have "fst (WithTimeout_end ctx (nat dt)) = 0" "Err ctx (nat dt) \<noteq> None"
    by (simp_all add: WithTimeout_end_def Err_def)
  with Some show ?thesis
    by (simp add: Timeout_def)
next
  case None
  have "exceeds (nat dt) (Timeout_goroutine (ended (invoke handler ctx req)))"
    using assms(2) by (simp add: Timeout_goroutine_exceeds invoke_simps)
  then have sel: "select pick (Timeout_goroutine (ended (invoke handler ctx req)))
        (WithTimeout_end ctx (nat dt)) =
      DoneClosed (fst (WithTimeout_end ctx (nat dt))) (snd (WithTimeout_end ctx (nat dt)))"
    by (rule select_exceeds)
  show ?thesis
  proof (cases "Err ctx (nat dt)")
    case alive: None
    with None sel assms(1) show ?thesis
      by (simp add: Timeout_def Let_def Err_WithTimeout_end WithTimeout_end_alive)
  next
    case gone: (Some e)
    with None sel assms(1) show ?thesis
      by (simp add: Timeout_def Let_def Err_WithTimeout_end)
  qed
qed

theorem Timeout_cause_witness:
  "ended (Timeout 5000000000 True background ''ping'' (echo_after 6000000000)) =
     Some (5000000000, Return (None, Some (StatusError DeadlineExceeded ''Deadline exceeded''))) \<and>
   ended (Timeout 5000000000 True background ''ping'' hangs) =
     Some (5000000000, Return (None, Some (StatusError DeadlineExceeded ''Deadline exceeded''))) \<and>
   ended (Timeout 5000000000 True (canceled_at 1000000000) ''ping'' (echo_after 6000000000)) =
     Some (1000000000, Return (None, Some (StatusError Canceled ''Canceled by caller'')))"
proof -
  have dt: "(0::int) < 5000000000" by simp
  have late: "exceeds (nat 5000000000) (ended (echo_after 6000000000 ctx ''ping''))" for ctx
    by (simp add: exceeds_def echo_after_def)
  have never: "exceeds (nat 5000000000) (ended (hangs background ''ping''))"
    by (simp add: exceeds_def hangs_def)
  have alive: "Err background (nat 5000000000) = None"
    by (simp add: Err_def background_def)
  have gone: "Err (canceled_at 1000000000) (nat 5000000000) \<noteq> None"
    "fst (WithTimeout_end (canceled_at 1000000000) (nat 5000000000)) = 1000000000"
    by (simp_all add: Err_def WithTimeout_end_def canceled_at_def background_def)
  from Timeout_cause [where handler = "echo_after 6000000000" and ctx = background
        and req = "''ping''" and pick = True, OF dt late] alive
    Timeout_cause [where handler = hangs and ctx = background
        and req = "''ping''" and pick = True, OF dt never] alive
    Timeout_cause [where handler = "echo_after 6000000000" and ctx = "canceled_at 1000000000"
        and req = "''ping''" and pick = True, OF dt late] gone
  show ?thesis by simp
qed

text \<open>
  C4, as the claim states it, fails: the handler below returns after three seconds,
  within the timeout of five, yet the caller hung up after one second and \<^verbatim>\<open>Timeout\<close>
  has returned Canceled by then, not the handler's response.
\<close>

theorem Timeout_pass_through_counterexample:
  "ended (echo_after 3000000000 (canceled_at 1000000000) ''ping'') =
     Some (3000000000, Return (Some ''ping'', None)) \<and>
   3000000000 < nat 5000000000 \<and>
   ended (Timeout 5000000000 True (canceled_at 1000000000) ''ping'' (echo_after 3000000000)) =
     Some (1000000000, Return (None, Some (StatusError Canceled ''Canceled by caller'')))"
  by (simp add: Timeout_def Timeout_goroutine_def Let_def invoke_def echo_after_def
      canceled_at_def background_def Err_def WithTimeout_end_def)

text \<open>
  C4, amended. Let the context not have ended on entry and let the handler return
  \<^verbatim>\<open>(resp, err)\<close> at instant \<open>d\<close>. If no timeout is configured, or if \<open>d\<close> is before the
  timeout and the parent context has not ended by \<open>d\<close>, then \<^verbatim>\<open>Timeout\<close> returns exactly
  that response and that error, at \<open>d\<close>, after one call of the handler.
\<close>

theorem Timeout_pass_through:
  assumes "Err ctx 0 = None"
    and "ended (handler ctx req) = Some (d, Return (resp, err))"
    and "0 < dt \<longrightarrow> d < nat dt \<and> Err ctx d = None"
  shows "ended (Timeout dt pick ctx req handler) = Some (d, Return (resp, err)) \<and>
         invocations (Timeout dt pick ctx req handler) = Suc (invocations (handler ctx req))"
proof (cases "0 < dt")
  case True
  with assms(3) have "d < nat dt" "Err ctx d = None" by simp_all
  then have "select pick (Some (d, FromRespChan resp err)) (WithTimeout_end ctx (nat dt)) =
      Received d (FromRespChan resp err)"
    by (rule select_in_time)
  with True assms(1,2) show ?thesis
    by (simp add: Timeout_def Timeout_goroutine_def Let_def invoke_simps)
next
  case False
  with assms(1,2) show ?thesis
    by (simp add: Timeout_def invoke_simps)
qed

theorem Timeout_pass_through_witness:
  "ended (Timeout 5000000000 False background ''ping'' (echo_after 3000000000)) =
     Some (3000000000, Return (Some ''ping'', None)) \<and>
   ended (Timeout 0 False (canceled_at 1000000000) ''ping'' (echo_after 3000000000)) =
     Some (3000000000, Return (Some ''ping'', None))"
proof -
  have ret: "ended (echo_after 3000000000 ctx ''ping'') =
      Some (3000000000, Return (Some ''ping'', None))" for ctx
    by (simp add: echo_after_def)
  have a1: "Err background 0 = None"
    and a2: "(0::int) < 5000000000 \<longrightarrow> 3000000000 < nat 5000000000 \<and> Err background 3000000000 = None"
    by (simp_all add: Err_def background_def)
  have b1: "Err (canceled_at 1000000000) 0 = None"
    and b2: "(0::int) < 0 \<longrightarrow> 3000000000 < nat 0 \<and> Err (canceled_at 1000000000) 3000000000 = None"
    by (simp_all add: Err_def canceled_at_def background_def)
  from Timeout_pass_through [where handler = "echo_after 3000000000" and ctx = background
        and req = "''ping''" and pick = False, OF a1 ret a2]
    Timeout_pass_through [where handler = "echo_after 3000000000"
        and ctx = "canceled_at 1000000000" and req = "''ping''" and pick = False, OF b1 ret b2]
  show ?thesis by simp
qed

section \<open>Properties of the chain of guards\<close>














section \<open>Properties of RunChecks\<close>

lemma fold_store:
  "\<forall>i \<in> set sched. i < length xs \<Longrightarrow>
   fold (\<lambda>idx ress. ress[idx := f idx]) sched xs =
     map (\<lambda>j. if j \<in> set sched then f j else xs ! j) [0..<length xs]"
proof (induction sched arbitrary: xs)
  case Nil
  then show ?case by (simp add: map_nth)
next
  case (Cons i sched)
  then have "fold (\<lambda>idx ress. ress[idx := f idx]) sched (xs[i := f i]) =
     map (\<lambda>j. if j \<in> set sched then f j else xs[i := f i] ! j) [0..<length (xs[i := f i])]"
    by simp
  also have "\<dots> = map (\<lambda>j. if j \<in> set (i # sched) then f j else xs ! j) [0..<length xs]"
    by (auto simp: nth_list_update)
  finally show ?case by simp
qed

lemma runCheck_goroutine_exceeds:
  "exceeds d b \<Longrightarrow> exceeds d (runCheck_goroutine stack b)"
  by (auto simp: runCheck_goroutine_def exceeds_def split: option.splits outcome.splits prod.splits)

lemma runCheck_timeout:
  "exceeds (nat timeout) (f (WithTimeout ctx (nat timeout))) \<Longrightarrow>
   st_State (snd (runCheck stack pick ctx timeout f)) = StateUnknown"
  by (simp add: runCheck_def Let_def select_exceeds runCheck_goroutine_exceeds)

text \<open>
  \<^verbatim>\<open>runCheck\<close> returns no later than its timeout, whatever the check does; so every
  goroutine of \<^verbatim>\<open>RunChecks\<close> finishes and \<^verbatim>\<open>wg.Wait()\<close> returns.
\<close>

lemma runCheck_returns_in_time: "fst (runCheck stack pick ctx timeout f) \<le> nat timeout"
proof -
  obtain t e where deadline: "WithTimeout_end ctx (nat timeout) = (t, e)"
    by (cases "WithTimeout_end ctx (nat timeout)")
  with WithTimeout_end_le [of ctx "nat timeout"] have "t \<le> nat timeout"
    by simp
  with deadline show ?thesis
    by (cases "runCheck_goroutine stack (f (WithTimeout ctx (nat timeout)))")
      (auto simp: runCheck_def Let_def)
qed

lemma RunChecks_goroutine_simps:
  "Name (RunChecks_goroutine stack pick ctx timeout check) = cf_Name check"
  "State (RunChecks_goroutine stack pick ctx timeout check) =
     st_State (snd (runCheck stack pick ctx timeout (cf_Func check)))"
  by (simp_all add: RunChecks_goroutine_def split: prod.split)

lemma RunChecks_slots:
  assumes "hc_Checks h \<noteq> []" and "set sched = {0..<length (hc_Checks h)}"
  shows "Checks (RunChecks stack pick sched h ctx) =
           map (\<lambda>idx. RunChecks_goroutine stack (pick idx) ctx (check_timeout h) (hc_Checks h ! idx))
             [0..<length (hc_Checks h)]"
proof -
  let ?f = "\<lambda>idx. RunChecks_goroutine stack (pick idx) ctx (check_timeout h) (hc_Checks h ! idx)"
  let ?zero = "replicate (length (hc_Checks h)) zero_CheckingResult"
  have "\<forall>i \<in> set sched. i < length ?zero"
    using assms(2) by simp
  then have "fold (\<lambda>idx ress. ress[idx := ?f idx]) sched ?zero =
      map (\<lambda>j. if j \<in> set sched then ?f j else ?zero ! j) [0..<length ?zero]"
    by (rule fold_store)
  also have "\<dots> = map ?f [0..<length (hc_Checks h)]"
    using assms(2) by simp
  finally show ?thesis
    using assms(1) by (simp add: RunChecks_def Let_def check_timeout_def WithCancel_def)
qed

text \<open>
  C6. Let at least one check be registered and let every goroutine of \<^verbatim>\<open>RunChecks\<close>
  finish, in any order \<open>sched\<close>. Then the result list has one outcome per registered
  check, at the position of the check: slot \<open>idx\<close> holds what the goroutine of check
  \<open>idx\<close> computes from that check alone, so the names are the registered names in
  registration order and no check affects the outcome of another. A check that is still
  running when its timeout has passed is reported with the state unknown.
\<close>

theorem RunChecks_registration_order:
  assumes "hc_Checks h \<noteq> []" and "set sched = {0..<length (hc_Checks h)}"
  shows "length (Checks (RunChecks stack pick sched h ctx)) = length (hc_Checks h) \<and>
         map Name (Checks (RunChecks stack pick sched h ctx)) = map cf_Name (hc_Checks h) \<and>
         (\<forall>idx < length (hc_Checks h).
            Checks (RunChecks stack pick sched h ctx) ! idx =
              RunChecks_goroutine stack (pick idx) ctx (check_timeout h) (hc_Checks h ! idx)) \<and>
         (\<forall>idx < length (hc_Checks h).
            exceeds (nat (check_timeout h))
              (cf_Func (hc_Checks h ! idx) (WithTimeout ctx (nat (check_timeout h))))
            \<longrightarrow> State (Checks (RunChecks stack pick sched h ctx) ! idx) = StateUnknown)"
proof -
  note slots = RunChecks_slots [OF assms, of stack pick ctx]
  have len: "length (Checks (RunChecks stack pick sched h ctx)) = length (hc_Checks h)"
    by (simp add: slots)
  have "map Name (Checks (RunChecks stack pick sched h ctx)) =
      map (\<lambda>idx. cf_Name (hc_Checks h ! idx)) [0..<length (hc_Checks h)]"
    by (simp add: slots RunChecks_goroutine_simps)
  also have "\<dots> = map cf_Name (map ((!) (hc_Checks h)) [0..<length (hc_Checks h)])"
    by simp
  also have "\<dots> = map cf_Name (hc_Checks h)"
    by (simp only: map_nth)
  finally have names: "map Name (Checks (RunChecks stack pick sched h ctx)) = map cf_Name (hc_Checks h)" .
  have own: "\<forall>idx < length (hc_Checks h).
      Checks (RunChecks stack pick sched h ctx) ! idx =
        RunChecks_goroutine stack (pick idx) ctx (check_timeout h) (hc_Checks h ! idx)"
    by (simp add: slots)
  have late: "\<forall>idx < length (hc_Checks h).
      exceeds (nat (check_timeout h))
        (cf_Func (hc_Checks h ! idx) (WithTimeout ctx (nat (check_timeout h))))
      \<longrightarrow> State (Checks (RunChecks stack pick sched h ctx) ! idx) = StateUnknown"
    by (simp add: slots RunChecks_goroutine_simps runCheck_timeout)
  from len names own late show ?thesis
    by blast
qed

theorem RunChecks_registration_order_witness:
  "map Name (Checks (RunChecks ''stack'' (\<lambda>idx. True) [1, 0] A_and_B background)) = [''A'', ''B''] \<and>
   State (Checks (RunChecks ''stack'' (\<lambda>idx. True) [1, 0] A_and_B background) ! 0) = StateHealthy \<and>
   State (Checks (RunChecks ''stack'' (\<lambda>idx. True) [1, 0] A_and_B background) ! 1) = StateUnknown"
proof -
  let ?R = "RunChecks ''stack'' (\<lambda>idx. True) [1, 0] A_and_B background"
  have checks: "hc_Checks A_and_B =
      [\<lparr>cf_Name = ''A'', cf_Func = always_healthy\<rparr>, \<lparr>cf_Name = ''B'', cf_Func = sleeps 3000000000\<rparr>]"
    by (simp add: A_and_B_def AddCheck_def checker_def)
  have timeout: "check_timeout A_and_B = 2000000000"
    by (simp add: check_timeout_def A_and_B_def AddCheck_def checker_def)
  have ne: "hc_Checks A_and_B \<noteq> []"
    by (simp add: checks)
  have all: "set [1, 0] = {0..<length (hc_Checks A_and_B)}"
    by (auto simp: checks)
  have B_late: "exceeds (nat (check_timeout A_and_B))
      (cf_Func (hc_Checks A_and_B ! 1) (WithTimeout background (nat (check_timeout A_and_B))))"
    by (simp add: checks timeout exceeds_def sleeps_def)
  have A_healthy: "State (RunChecks_goroutine ''stack'' True background (check_timeout A_and_B)
      (hc_Checks A_and_B ! 0)) = StateHealthy"
    by (simp add: checks timeout RunChecks_goroutine_def runCheck_def runCheck_goroutine_def
        always_healthy_def WithTimeout_end_def background_def Let_def)
  note order = RunChecks_registration_order [OF ne all, of "''stack''" "\<lambda>idx. True" background]
  from order have names: "map Name (Checks ?R) = map cf_Name (hc_Checks A_and_B)"
    by blast
  from order have own: "\<forall>idx < length (hc_Checks A_and_B).
      Checks ?R ! idx =
        RunChecks_goroutine ''stack'' True background (check_timeout A_and_B) (hc_Checks A_and_B ! idx)"
    by blast
  from order have late: "\<forall>idx < length (hc_Checks A_and_B).
      exceeds (nat (check_timeout A_and_B))
        (cf_Func (hc_Checks A_and_B ! idx) (WithTimeout background (nat (check_timeout A_and_B))))
      \<longrightarrow> State (Checks ?R ! idx) = StateUnknown"
    by blast
  have A: "State (Checks ?R ! 0) = StateHealthy"
    using own [rule_format, of 0] A_healthy by (simp add: checks)
  have two: "1 < length (hc_Checks A_and_B)"
    by (simp add: checks)
  have B: "State (Checks ?R ! 1) = StateUnknown"
    using late [rule_format, OF two B_late] .
  from names A B show ?thesis
    by (simp add: checks)
qed


end
